theory Spec2Isabelle
  imports Main "HOL-Library.AList"
begin

section \<open>Values, dictionaries and errors\<close>

text \<open>
  The status module is imported by \<^verbatim>\<open>member.py\<close> (\<^verbatim>\<open>from status import Status, Active,
  Error, Forwarded, OptOut\<close>): its four named values are the constructors below.
\<close>

datatype status = Active | Error | Forwarded | OptOut

text \<open>
  Python values as the code meets them: decoded JSON (null, booleans, integers, strings,
  arrays, objects with string keys) and status objects, which \<^verbatim>\<open>_parse_raw\<close> stores in
  the field mapping. Floating point numbers are not modelled. A dictionary is an
  association list read with \<^const>\<open>map_of\<close> (the first entry of a key is the entry) and
  written with \<^const>\<open>AList.update\<close> and \<^const>\<open>AList.delete\<close>.
\<close>

datatype val =
    VNone
  | VBool bool
  | VInt int
  | VStr string
  | VList "val list"
  | VDict "(string \<times> val) list"
  | VStatus status

type_synonym dict = "(string \<times> val) list"

text \<open>The HTTP response object of the requests library, as far as the adapter reads it.\<close>

record response =
  status_code :: int
  json :: val

text \<open>
  Exceptions are values. \<open>KeyError\<close>, \<open>TypeError\<close> and \<open>ValueError\<close> are Python's own;
  \<open>Unmodelled\<close> marks the one input outside the modelled fragment (see \<open>parse_raw\<close>).
\<close>

datatype error =
    NoMemberEmailError
  | NoMemberIdError
  | NoMemberStatusError
  | MemberUpdateError
  | ApiRequestFailed response
  | KeyError string
  | TypeError
  | ValueError
  | Unmodelled

text \<open>Python's truth value of an object, as \<^verbatim>\<open>if x:\<close> tests it.\<close>

fun truthy :: "val \<Rightarrow> bool" where
  "truthy VNone = False"
| "truthy (VBool b) = b"
| "truthy (VInt i) = (i \<noteq> 0)"
| "truthy (VStr s) = (s \<noteq> [])"
| "truthy (VList xs) = (xs \<noteq> [])"
| "truthy (VDict d) = (d \<noteq> [])"
| "truthy (VStatus st) = True"

text \<open>\<^verbatim>\<open>v[k]\<close> for a string key \<open>k\<close>: only a dictionary can be subscripted by a string.\<close>

fun subscript :: "val \<Rightarrow> string \<Rightarrow> error + val" where
  "subscript (VDict d) k = (case map_of d k of None \<Rightarrow> Inl (KeyError k) | Some v \<Rightarrow> Inr v)"
| "subscript v k = Inl TypeError"

section \<open>The transport adapter\<close>

text \<open>
  \<^verbatim>\<open>RequestsAdapter._process_response\<close>: 404 gives \<^verbatim>\<open>None\<close>, any other status code above
  200 raises \<^verbatim>\<open>ApiRequestFailed(response)\<close>, everything else returns \<^verbatim>\<open>response.json\<close>.
\<close>

definition process_response :: "response \<Rightarrow> error + val" where
  "process_response r =
     (if status_code r = 404 then Inr VNone
      else if status_code r > 200 then Inl (ApiRequestFailed r)
      else Inr (json r))"

text \<open>
  A request as the model classes hand it to the adapter: the verb, the endpoint, and the
  second argument when one is passed. An endpoint is the format string of the path with
  the value substituted for its \<^verbatim>\<open>%s\<close>, kept unrendered (Python's rendering of a value
  as text is not part of the program).
\<close>

datatype verb = GET | POST | PUT | DELETE

type_synonym endpoint = "string \<times> val option"

datatype request = Request verb endpoint "val option"

section \<open>The collaborators of a member\<close>

text \<open>
  Modelled from the spec: the modules \<^verbatim>\<open>status\<close>, \<^verbatim>\<open>group\<close>, \<^verbatim>\<open>mailing\<close>, the account and
  the abstract adapter are not among the sources. The code reaches them through
  \<^verbatim>\<open>self.account.fields.export_shortcuts()\<close> (the custom-field names the account
  accepts, a list of strings), \<^verbatim>\<open>Status.factory\<close> and \<^verbatim>\<open>get_code\<close> (wire code to status and
  back; what an unrecognised code does is left open, so the factory may fail),
  \<^verbatim>\<open>Group(account, x)\<close> and \<^verbatim>\<open>Mailing(account, x)\<close> (decoding one record into an entity,
  here a value), and \<^verbatim>\<open>self.account.adapter\<close>. The adapter answers a request with a
  decoded value, \<^verbatim>\<open>None\<close> for not found, or raises; its answer may depend on the requests
  issued before. All of them are parameters of the model.
\<close>

record env =
  shortcuts :: "string list"
  factory :: "val \<Rightarrow> error + status"
  get_code :: "status \<Rightarrow> val"
  new_group :: "val \<Rightarrow> error + val"
  new_mailing :: "val \<Rightarrow> error + val"
  adapter :: "request list \<Rightarrow> request \<Rightarrow> error + val"

text \<open>
  Modelled from the spec: the base classes \<^verbatim>\<open>BaseApiModel\<close> and \<^verbatim>\<open>Collection\<close> are not among
  the sources. An entity is a mapping over its field dictionary \<^verbatim>\<open>_dict\<close> (\<^verbatim>\<open>k in self\<close>,
  \<^verbatim>\<open>self[k]\<close> and \<^verbatim>\<open>self[k] = v\<close> read and write \<^verbatim>\<open>_dict\<close>); a collection is a mapping over
  its cache \<^verbatim>\<open>_dict\<close>, empty when created, and its \<^verbatim>\<open>len\<close> is the number of cached entries.

  The state is the member's field dictionary, the caches of its two collections, and the
  requests issued so far.
\<close>

type_synonym cache = "(val \<times> val) list"

record state =
  m_dict :: dict
  groups :: cache
  mailings :: cache
  calls :: "request list"

text \<open>Operations return a result or an exception, and the state they leave.\<close>

type_synonym 'a py = "state \<Rightarrow> (error + 'a) \<times> state"

definition call :: "env \<Rightarrow> request \<Rightarrow> val py" where
  "call E r s = (adapter E (calls s) r, s\<lparr>calls := calls s @ [r]\<rparr>)"

section \<open>Member\<close>

text \<open>\<^verbatim>\<open>raw.update(other)\<close> for a dictionary \<open>other\<close>.\<close>

definition dict_update :: "dict \<Rightarrow> dict \<Rightarrow> dict" where
  "dict_update d other = fold (\<lambda>(k, v). AList.update k v) other d"

text \<open>
  \<^verbatim>\<open>Member._parse_raw\<close>. The nested \<^verbatim>\<open>fields\<close> value is merged by \<^verbatim>\<open>dict.update\<close>: a
  dictionary is merged entry by entry; \<^verbatim>\<open>None\<close>, a boolean or a number is not iterable;
  an empty string or list merges nothing; a non-empty string iterates characters, which
  are not pairs. A non-empty list of pairs could add keys that are not strings and is
  outside the modelled fragment, as is a status object.
\<close>

definition parse_status :: "env \<Rightarrow> dict \<Rightarrow> error + dict" where
  "parse_status E raw =
     (case map_of raw ''status'' of
        None \<Rightarrow> Inr raw
      | Some c \<Rightarrow>
          (case factory E c of
             Inl e \<Rightarrow> Inl e
           | Inr st \<Rightarrow> Inr (AList.update ''status'' (VStatus st) raw)))"

fun merge_fields :: "dict \<Rightarrow> val \<Rightarrow> error + dict" where
  "merge_fields raw (VDict f) = Inr (dict_update raw f)"
| "merge_fields raw VNone = Inl TypeError"
| "merge_fields raw (VBool b) = Inl TypeError"
| "merge_fields raw (VInt i) = Inl TypeError"
| "merge_fields raw (VStr s) = (if s = [] then Inr raw else Inl ValueError)"
| "merge_fields raw (VList xs) = (if xs = [] then Inr raw else Inl Unmodelled)"
| "merge_fields raw (VStatus st) = Inl Unmodelled"

definition parse_raw :: "env \<Rightarrow> dict \<Rightarrow> error + dict" where
  "parse_raw E raw =
     (case parse_status E raw of
        Inl e \<Rightarrow> Inl e
      | Inr raw1 \<Rightarrow>
          (let raw2 = AList.delete ''member_status_id'' raw1 in
           case map_of raw2 ''fields'' of
             None \<Rightarrow> Inr raw2
           | Some f \<Rightarrow>
               (case merge_fields raw2 f of
                  Inl e \<Rightarrow> Inl e
                | Inr raw3 \<Rightarrow> Inr (AList.delete ''fields'' raw3))))"

text \<open>\<^verbatim>\<open>Member.__init__\<close>: empty collections, parsed fields; no request has been issued.\<close>

definition Member :: "env \<Rightarrow> dict option \<Rightarrow> error + state" where
  "Member E raw =
     (case raw of
        None \<Rightarrow> Inr \<lparr>m_dict = [], groups = [], mailings = [], calls = []\<rparr>
      | Some r \<Rightarrow>
          (case parse_raw E r of
             Inl e \<Rightarrow> Inl e
           | Inr d \<Rightarrow> Inr \<lparr>m_dict = d, groups = [], mailings = [], calls = []\<rparr>))"

text \<open>
  \<^verbatim>\<open>Member.extract\<close> (the name is a keyword of Isabelle, hence \<open>member_extract\<close>).
  \<open>squash\<close> is the inner function of the source: a top-level key is stored at the top,
  any other under \<^verbatim>\<open>fields\<close>, which is created on first use; storing under a \<^verbatim>\<open>fields\<close>
  entry that is not a dictionary raises. (With a caller-supplied
  \<open>top_level\<close> containing \<^verbatim>\<open>fields\<close> the source would share that value with the member; the
  default, which is all the sources use, cannot reach this.) \<open>reduce\<close> is Python's
  \<^verbatim>\<open>reduce\<close> with a function that may raise; \<open>items\<close> lists each key once.
\<close>

definition squash :: "string list \<Rightarrow> dict \<Rightarrow> string \<times> val \<Rightarrow> error + dict" where
  "squash top_level d t =
     (if fst t \<in> set top_level then Inr (AList.update (fst t) (snd t) d)
      else
        (case map_of d ''fields'' of
           None \<Rightarrow> Inr (AList.update ''fields'' (VDict [(fst t, snd t)]) d)
         | Some (VDict f) \<Rightarrow> Inr (AList.update ''fields'' (VDict (AList.update (fst t) (snd t) f)) d)
         | Some _ \<Rightarrow> Inl TypeError))"

fun reduce :: "('a \<Rightarrow> 'b \<Rightarrow> error + 'a) \<Rightarrow> 'b list \<Rightarrow> 'a \<Rightarrow> error + 'a" where
  "reduce f [] a = Inr a"
| "reduce f (x # xs) a = (case f a x of Inl e \<Rightarrow> Inl e | Inr a' \<Rightarrow> reduce f xs a')"

definition items :: "dict \<Rightarrow> (string \<times> val) list" where
  "items d = AList.clearjunk d"

definition member_extract :: "env \<Rightarrow> string list option \<Rightarrow> dict \<Rightarrow> error + dict" where
  "member_extract E top_level d =
     (if map_of d ''email'' = None then Inl NoMemberEmailError
      else
        (let tl = (case top_level of None \<Rightarrow> [''member_id'', ''email''] | Some t \<Rightarrow> t);
             sc = shortcuts E
         in reduce (squash tl) (filter (\<lambda>x. fst x \<in> set (sc @ tl)) (items d)) []))"

text \<open>\<^verbatim>\<open>Member.opt_out\<close>: the status changes only when the adapter's answer is truthy.\<close>

definition opt_out :: "env \<Rightarrow> unit py" where
  "opt_out E s =
     (case map_of (m_dict s) ''email'' of
        None \<Rightarrow> (Inl NoMemberEmailError, s)
      | Some email \<Rightarrow>
          (case call E (Request PUT (''/members/email/optout/%s'', Some email) None) s of
             (Inl e, s1) \<Rightarrow> (Inl e, s1)
           | (Inr r, s1) \<Rightarrow>
               (if truthy r
                then (Inr (), s1\<lparr>m_dict := AList.update ''status'' (VStatus OptOut) (m_dict s1)\<rparr>)
                else (Inr (), s1))))"

text \<open>
  \<^verbatim>\<open>Member.get_opt_out_detail\<close>. The source reads \<^verbatim>\<open>self._dict['status']\<close> without a test
  for the key, so a member without a status raises Python's \<^verbatim>\<open>KeyError\<close>.
\<close>

definition get_opt_out_detail :: "env \<Rightarrow> val py" where
  "get_opt_out_detail E s =
     (case map_of (m_dict s) ''member_id'' of
        None \<Rightarrow> (Inl NoMemberIdError, s)
      | Some mid \<Rightarrow>
          (case map_of (m_dict s) ''status'' of
             None \<Rightarrow> (Inl (KeyError ''status''), s)
           | Some st \<Rightarrow>
               (if st \<noteq> VStatus OptOut then (Inr (VList []), s)
                else call E (Request GET (''/members/%s/optout'', Some mid) None) s)))"

text \<open>\<^verbatim>\<open>Member.has_opted_out\<close> (the \<^verbatim>\<open>print\<close> of the source writes to the console only).\<close>

definition has_opted_out :: "bool py" where
  "has_opted_out s =
     (case map_of (m_dict s) ''status'' of
        None \<Rightarrow> (Inl NoMemberStatusError, s)
      | Some st \<Rightarrow> (Inr (st = VStatus OptOut), s))"

section \<open>The collections of a member\<close>

text \<open>
  What \<^verbatim>\<open>map(f, v)\<close> iterates over: the elements of a list, the keys of a dictionary,
  the characters of a string; nothing else the adapter can return is iterable.
\<close>

fun py_iter :: "val \<Rightarrow> error + val list" where
  "py_iter (VList xs) = Inr xs"
| "py_iter (VDict d) = Inr (map (\<lambda>x. VStr (fst x)) (items d))"
| "py_iter (VStr s) = Inr (map (\<lambda>c. VStr [c]) s)"
| "py_iter VNone = Inl TypeError"
| "py_iter (VBool b) = Inl TypeError"
| "py_iter (VInt i) = Inl TypeError"
| "py_iter (VStatus st) = Inl Unmodelled"

fun map_py :: "('a \<Rightarrow> error + 'b) \<Rightarrow> 'a list \<Rightarrow> error + 'b list" where
  "map_py f [] = Inr []"
| "map_py f (x # xs) =
     (case f x of
        Inl e \<Rightarrow> Inl e
      | Inr y \<Rightarrow> (case map_py f xs of Inl e \<Rightarrow> Inl e | Inr ys \<Rightarrow> Inr (y # ys)))"

text \<open>The \<^verbatim>\<open>lambda x: (x[key], Entity(account, x))\<close> of both \<^verbatim>\<open>fetch_all\<close> methods.\<close>

definition keyed :: "string \<Rightarrow> (val \<Rightarrow> error + val) \<Rightarrow> val \<Rightarrow> error + val \<times> val" where
  "keyed key ctor x =
     (case subscript x key of
        Inl e \<Rightarrow> Inl e
      | Inr k \<Rightarrow> (case ctor x of Inl e \<Rightarrow> Inl e | Inr ent \<Rightarrow> Inr (k, ent)))"

text \<open>
  \<^verbatim>\<open>dict(pairs)\<close>: a list or a dictionary cannot be a key; a later pair replaces the value
  of an equal key and keeps the key first stored; \<^verbatim>\<open>True\<close> and \<^verbatim>\<open>1\<close> (\<^verbatim>\<open>False\<close> and \<^verbatim>\<open>0\<close>)
  are equal keys.
\<close>

fun hashable :: "val \<Rightarrow> bool" where
  "hashable (VList xs) = False"
| "hashable (VDict d) = False"
| "hashable v = True"

fun key_eq :: "val \<Rightarrow> val \<Rightarrow> bool" where
  "key_eq (VBool b) (VInt i) = (i = (if b then 1 else 0))"
| "key_eq (VInt i) (VBool b) = (i = (if b then 1 else 0))"
| "key_eq a b = (a = b)"

fun cache_set :: "val \<Rightarrow> val \<Rightarrow> cache \<Rightarrow> cache" where
  "cache_set k v [] = [(k, v)]"
| "cache_set k v (p # ps) =
     (if key_eq k (fst p) then (fst p, v) # ps else p # cache_set k v ps)"

definition py_dict :: "(val \<times> val) list \<Rightarrow> error + cache" where
  "py_dict ps =
     (if list_all (\<lambda>p. hashable (fst p)) ps
      then Inr (fold (\<lambda>p. cache_set (fst p) (snd p)) ps [])
      else Inl TypeError)"

text \<open>
  The part both \<^verbatim>\<open>fetch_all\<close> methods share: one \<^verbatim>\<open>get\<close>, then the dictionary of the
  decoded entities by key.
\<close>

definition fetch_entities :: "env \<Rightarrow> endpoint \<Rightarrow> string \<Rightarrow> (val \<Rightarrow> error + val) \<Rightarrow> cache py" where
  "fetch_entities E p key ctor s =
     (case call E (Request GET p None) s of
        (Inl e, s1) \<Rightarrow> (Inl e, s1)
      | (Inr r, s1) \<Rightarrow>
          (case py_iter r of
             Inl e \<Rightarrow> (Inl e, s1)
           | Inr xs \<Rightarrow>
               (case map_py (keyed key ctor) xs of
                  Inl e \<Rightarrow> (Inl e, s1)
                | Inr ps \<Rightarrow>
                    (case py_dict ps of
                       Inl e \<Rightarrow> (Inl e, s1)
                     | Inr d \<Rightarrow> (Inr d, s1)))))"

text \<open>\<^verbatim>\<open>MemberMailingCollection.fetch_all\<close>.\<close>

definition mailings_fetch_all :: "env \<Rightarrow> cache py" where
  "mailings_fetch_all E s =
     (case map_of (m_dict s) ''member_id'' of
        None \<Rightarrow> (Inl NoMemberIdError, s)
      | Some mid \<Rightarrow>
          (if mailings s = []
           then
             (case fetch_entities E (''/members/%s/mailings'', Some mid) ''mailing_id''
                     (new_mailing E) s of
                (Inl e, s1) \<Rightarrow> (Inl e, s1)
              | (Inr d, s1) \<Rightarrow> (Inr d, s1\<lparr>mailings := d\<rparr>))
           else (Inr (mailings s), s)))"

text \<open>\<^verbatim>\<open>MemberGroupCollection.fetch_all\<close>.\<close>

definition groups_fetch_all :: "env \<Rightarrow> cache py" where
  "groups_fetch_all E s =
     (case map_of (m_dict s) ''member_id'' of
        None \<Rightarrow> (Inl NoMemberIdError, s)
      | Some mid \<Rightarrow>
          (if groups s = []
           then
             (case fetch_entities E (''/members/%s/groups'', Some mid) ''group_name''
                     (new_group E) s of
                (Inl e, s1) \<Rightarrow> (Inl e, s1)
              | (Inr d, s1) \<Rightarrow> (Inr d, s1\<lparr>groups := d\<rparr>))
           else (Inr (groups s), s)))"

section \<open>Saving a member\<close>

text \<open>
  \<^verbatim>\<open>Member._add\<close>. The group identifiers are attached when the group cache is not empty;
  \<^verbatim>\<open>signup_form_id\<close> is attached when it is truthy. The answer of the \<^verbatim>\<open>post\<close> is read in
  the order of the source: \<^verbatim>\<open>status\<close>, then \<^verbatim>\<open>added\<close>, then \<^verbatim>\<open>member_id\<close>.
\<close>

definition add_data :: "env \<Rightarrow> val \<Rightarrow> dict py" where
  "add_data E signup_form_id s =
     (case member_extract E None (m_dict s) of
        Inl e \<Rightarrow> (Inl e, s)
      | Inr data \<Rightarrow>
          (case (if length (groups s) \<noteq> 0
                 then (case groups_fetch_all E s of
                         (Inl e, s1) \<Rightarrow> (Inl e, s1)
                       | (Inr g, s1) \<Rightarrow>
                           (Inr (AList.update ''group_ids'' (VList (map fst g)) data), s1))
                 else (Inr data, s)) of
             (Inl e, s1) \<Rightarrow> (Inl e, s1)
           | (Inr data1, s1) \<Rightarrow>
               (if truthy signup_form_id
                then (Inr (AList.update ''signup_form_id'' signup_form_id data1), s1)
                else (Inr data1, s1))))"

definition add_outcome :: "env \<Rightarrow> val \<Rightarrow> unit py" where
  "add_outcome E outcome s =
     (case subscript outcome ''status'' of
        Inl e \<Rightarrow> (Inl e, s)
      | Inr c \<Rightarrow>
          (case factory E c of
             Inl e \<Rightarrow> (Inl e, s)
           | Inr st \<Rightarrow>
               (let s1 = s\<lparr>m_dict := AList.update ''status'' (VStatus st) (m_dict s)\<rparr> in
                case subscript outcome ''added'' of
                  Inl e \<Rightarrow> (Inl e, s1)
                | Inr a \<Rightarrow>
                    (if truthy a
                     then (case subscript outcome ''member_id'' of
                             Inl e \<Rightarrow> (Inl e, s1)
                           | Inr i \<Rightarrow>
                               (Inr (), s1\<lparr>m_dict := AList.update ''member_id'' i (m_dict s1)\<rparr>))
                     else (Inr (), s1)))))"

definition member_add :: "env \<Rightarrow> val \<Rightarrow> unit py" where
  "member_add E signup_form_id s =
     (case add_data E signup_form_id s of
        (Inl e, s1) \<Rightarrow> (Inl e, s1)
      | (Inr data, s1) \<Rightarrow>
          (case call E (Request POST (''/members/add'', None) (Some (VDict data))) s1 of
             (Inl e, s2) \<Rightarrow> (Inl e, s2)
           | (Inr outcome, s2) \<Rightarrow> add_outcome E outcome s2))"

text \<open>
  \<^verbatim>\<open>Member._update\<close>. \<^verbatim>\<open>status_to\<close> is set when the status is one of \<^verbatim>\<open>(Active, Error,
  OptOut)\<close>; a falsy answer of the \<^verbatim>\<open>put\<close> raises \<^verbatim>\<open>MemberUpdateError\<close>. Both
  \<^verbatim>\<open>self._dict['member_id']\<close> and \<^verbatim>\<open>self._dict['status']\<close> are read without a test for the
  key.
\<close>

definition status_to :: "env \<Rightarrow> val \<Rightarrow> dict \<Rightarrow> dict" where
  "status_to E st data =
     (case st of
        VStatus c \<Rightarrow>
          (if c \<in> set [Active, Error, OptOut]
           then AList.update ''status_to'' (get_code E c) data
           else data)
      | _ \<Rightarrow> data)"

definition update_data :: "env \<Rightarrow> dict \<Rightarrow> error + endpoint \<times> dict" where
  "update_data E d =
     (case map_of d ''member_id'' of
        None \<Rightarrow> Inl (KeyError ''member_id'')
      | Some mid \<Rightarrow>
          (case member_extract E None d of
             Inl e \<Rightarrow> Inl e
           | Inr data \<Rightarrow>
               (case map_of d ''status'' of
                  None \<Rightarrow> Inl (KeyError ''status'')
                | Some st \<Rightarrow> Inr ((''/members/%s'', Some mid), status_to E st data))))"

definition member_update :: "env \<Rightarrow> unit py" where
  "member_update E s =
     (case update_data E (m_dict s) of
        Inl e \<Rightarrow> (Inl e, s)
      | Inr (p, data) \<Rightarrow>
          (case call E (Request PUT p (Some (VDict data))) s of
             (Inl e, s1) \<Rightarrow> (Inl e, s1)
           | (Inr r, s1) \<Rightarrow>
               (if \<not> truthy r then (Inl MemberUpdateError, s1) else (Inr (), s1))))"

text \<open>\<^verbatim>\<open>Member.save\<close>: the presence of \<^verbatim>\<open>member_id\<close> decides between adding and updating.\<close>

definition save :: "env \<Rightarrow> val \<Rightarrow> unit py" where
  "save E signup_form_id s =
     (if map_of (m_dict s) ''member_id'' = None
      then member_add E signup_form_id s
      else member_update E s)"

text \<open>The requests an operation issued: what it appended to the log.\<close>

definition new_calls :: "state \<Rightarrow> state \<Rightarrow> request list" where
  "new_calls s s' = drop (length (calls s)) (calls s')"

text \<open>
  The operations of the sources on one member and its collections, and a run of them in
  the order the caller issues them; a raised exception ends the operation, not the run.
\<close>

datatype op =
    Save val
  | OptOutOp
  | GetOptOutDetail
  | HasOptedOut
  | GroupsFetchAll
  | MailingsFetchAll

fun step :: "env \<Rightarrow> op \<Rightarrow> state \<Rightarrow> state" where
  "step E (Save signup_form_id) s = snd (save E signup_form_id s)"
| "step E OptOutOp s = snd (opt_out E s)"
| "step E GetOptOutDetail s = snd (get_opt_out_detail E s)"
| "step E HasOptedOut s = snd (has_opted_out s)"
| "step E GroupsFetchAll s = snd (groups_fetch_all E s)"
| "step E MailingsFetchAll s = snd (mailings_fetch_all E s)"

definition run :: "env \<Rightarrow> op list \<Rightarrow> state \<Rightarrow> state" where
  "run E ops s = fold (step E) ops s"

text \<open>A \<^verbatim>\<open>get\<close> of the path with the given format string.\<close>

fun is_get :: "string \<Rightarrow> request \<Rightarrow> bool" where
  "is_get fmt (Request v p b) = (v = GET \<and> fst p = fmt)"

section \<open>An example account\<close>

text \<open>
  Modelled from the spec: the wire codes of the status module are not among the sources.
  The spec gives \<^verbatim>\<open>"a"\<close> for Active; the other three codes below are the example's own.
  The example account is used to evaluate the model on concrete members; the theorems
  hold for every account.
\<close>

definition example_code :: "status \<Rightarrow> val" where
  "example_code st =
     (case st of
        Active \<Rightarrow> VStr ''a''
      | Error \<Rightarrow> VStr ''e''
      | Forwarded \<Rightarrow> VStr ''f''
      | OptOut \<Rightarrow> VStr ''o'')"

definition example_factory :: "val \<Rightarrow> error + status" where
  "example_factory c =
     (if c = VStr ''a'' then Inr Active
      else if c = VStr ''e'' then Inr Error
      else if c = VStr ''f'' then Inr Forwarded
      else if c = VStr ''o'' then Inr OptOut
      else Inl ValueError)"

text \<open>An account with the given shortcuts whose adapter gives every request the same answer.\<close>

definition example_account :: "string list \<Rightarrow> error + val \<Rightarrow> env" where
  "example_account sc answer =
     \<lparr>shortcuts = sc, factory = example_factory, get_code = example_code,
      new_group = Inr, new_mailing = Inr, adapter = (\<lambda>log r. answer)\<rparr>"

text \<open>A member with the given fields, empty collections and no request issued yet.\<close>

definition member_with :: "dict \<Rightarrow> state" where
  "member_with d = \<lparr>m_dict = d, groups = [], mailings = [], calls = []\<rparr>"

section \<open>The adapter's reading of a response\<close>

text \<open>
  C2, as stated, fails: the result is also null when a status of at most 200 comes with a
  null body (here 200), so null does not single out 404; and 201, a success status,
  raises \<^verbatim>\<open>ApiRequestFailed\<close> instead of returning the decoded body.
\<close>

theorem process_response_counterexample:
  "process_response \<lparr>status_code = 200, json = VNone\<rparr> = Inr VNone
   \<and> process_response \<lparr>status_code = 201, json = VInt 1\<rparr>
       = Inl (ApiRequestFailed \<lparr>status_code = 201, json = VInt 1\<rparr>)"
  by (simp add: process_response_def)

text \<open>
  C2, amended: status 404 gives null; any other status above 200 raises
  \<^verbatim>\<open>ApiRequestFailed\<close> carrying the raw response; a status of at most 200 returns the
  decoded body; so the result is null exactly when the status is 404, or is at most 200
  with a null body.
\<close>

theorem process_response_cases:
  "(status_code r = 404 \<longrightarrow> process_response r = Inr VNone)
   \<and> (status_code r \<noteq> 404 \<and> 200 < status_code r \<longrightarrow> process_response r = Inl (ApiRequestFailed r))
   \<and> (status_code r \<le> 200 \<longrightarrow> process_response r = Inr (json r))
   \<and> (process_response r = Inr VNone
        \<longleftrightarrow> status_code r = 404 \<or> (status_code r \<le> 200 \<and> json r = VNone))"
  by (auto simp: process_response_def)

theorem process_response_cases_witness:
  "process_response \<lparr>status_code = 404, json = VStr ''gone''\<rparr> = Inr VNone
   \<and> process_response \<lparr>status_code = 500, json = VNone\<rparr>
       = Inl (ApiRequestFailed \<lparr>status_code = 500, json = VNone\<rparr>)
   \<and> process_response \<lparr>status_code = 200, json = VList [VInt 7]\<rparr> = Inr (VList [VInt 7])"
  using process_response_cases [of "\<lparr>status_code = 404, json = VStr ''gone''\<rparr>"]
    process_response_cases [of "\<lparr>status_code = 500, json = VNone\<rparr>"]
    process_response_cases [of "\<lparr>status_code = 200, json = VList [VInt 7]\<rparr>"]
  by simp

section \<open>Extraction with the default top-level keys\<close>

text \<open>
  With the default top-level keys \<^verbatim>\<open>member_id\<close> and \<^verbatim>\<open>email\<close>, \<open>squash\<close> never raises:
  the \<^verbatim>\<open>fields\<close> entry of the result is absent or a dictionary throughout. Apart from
  \<^verbatim>\<open>fields\<close>, the keys of the result are the two top-level keys, with the member's values.
\<close>

lemma squash_default_ok:
  assumes "map_of acc ''fields'' = None \<or> (\<exists>f. map_of acc ''fields'' = Some (VDict f))"
  shows "\<exists>r. squash [''member_id'', ''email''] acc t = Inr r
          \<and> (map_of r ''fields'' = None \<or> (\<exists>f. map_of r ''fields'' = Some (VDict f)))
          \<and> (\<forall>k. k \<noteq> ''fields'' \<longrightarrow> map_of r k =
                (if k = fst t \<and> k \<in> {''member_id'', ''email''} then Some (snd t) else map_of acc k))"
  using assms by (auto simp: squash_def update_conv')

lemma reduce_squash_default:
  assumes "map_of acc ''fields'' = None \<or> (\<exists>f. map_of acc ''fields'' = Some (VDict f))"
    and "distinct (map fst xs)"
  shows "\<exists>r. reduce (squash [''member_id'', ''email'']) xs acc = Inr r
          \<and> (\<forall>k. k \<noteq> ''fields'' \<longrightarrow> map_of r k =
                (if k \<in> fst ` set xs \<and> k \<in> {''member_id'', ''email''} then map_of xs k else map_of acc k))"
  using assms
proof (induction xs arbitrary: acc)
  case Nil
  then show ?case by simp
next
  case (Cons t xs)
  from squash_default_ok [OF Cons.prems(1), of t] obtain a where
    a: "squash [''member_id'', ''email''] acc t = Inr a"
       "map_of a ''fields'' = None \<or> (\<exists>f. map_of a ''fields'' = Some (VDict f))"
       "\<forall>k. k \<noteq> ''fields'' \<longrightarrow> map_of a k =
                (if k = fst t \<and> k \<in> {''member_id'', ''email''} then Some (snd t) else map_of acc k)"
    by blast
  from Cons.prems(2) have d: "distinct (map fst xs)" and nt: "fst t \<notin> fst ` set xs" by auto
  from Cons.IH [OF a(2) d] obtain r where
    r: "reduce (squash [''member_id'', ''email'']) xs a = Inr r"
       "\<forall>k. k \<noteq> ''fields'' \<longrightarrow> map_of r k =
                (if k \<in> fst ` set xs \<and> k \<in> {''member_id'', ''email''} then map_of xs k else map_of a k)"
    by blast
  have "reduce (squash [''member_id'', ''email'']) (t # xs) acc = Inr r"
    using a(1) r(1) by simp
  moreover have "\<forall>k. k \<noteq> ''fields'' \<longrightarrow> map_of r k =
                (if k \<in> fst ` set (t # xs) \<and> k \<in> {''member_id'', ''email''} then map_of (t # xs) k else map_of acc k)"
    using r(2) a(3) nt by (cases t) auto
  ultimately show ?case by blast
qed

lemma map_of_filter_key:
  "map_of (filter (\<lambda>x. fst x \<in> K) xs) k = (if k \<in> K then map_of xs k else None)"
  by (induction xs) auto

lemma keys_filter_key:
  "k \<in> fst ` set (filter (\<lambda>x. fst x \<in> K) xs) \<longleftrightarrow> k \<in> K \<and> k \<in> fst ` set xs"
  by (induction xs) auto

lemma member_extract_default:
  assumes "map_of d ''email'' \<noteq> None"
  shows "\<exists>body. member_extract E None d = Inr body
          \<and> (\<forall>k. k \<noteq> ''fields'' \<longrightarrow> map_of body k =
                (if k \<in> {''member_id'', ''email''} then map_of d k else None))"
proof -
  let ?K = "set (shortcuts E @ [''member_id'', ''email''])"
  let ?xs = "filter (\<lambda>x. fst x \<in> ?K) (items d)"
  have dist: "distinct (map fst ?xs)"
    by (simp add: items_def distinct_map_filter)
  have acc: "map_of ([] :: dict) ''fields'' = None \<or> (\<exists>f. map_of ([] :: dict) ''fields'' = Some (VDict f))"
    by simp
  from reduce_squash_default [OF acc dist] obtain r where
    r: "reduce (squash [''member_id'', ''email'']) ?xs [] = Inr r"
       "\<forall>k. k \<noteq> ''fields'' \<longrightarrow> map_of r k =
          (if k \<in> fst ` set ?xs \<and> k \<in> {''member_id'', ''email''} then map_of ?xs k else map_of [] k)"
    by blast
  have ex: "member_extract E None d = Inr r"
    unfolding member_extract_def Let_def option.case
    using r(1) by (simp only: assms if_False)
  have "map_of r k = (if k \<in> {''member_id'', ''email''} then map_of d k else None)"
    if "k \<noteq> ''fields''" for k
  proof (cases "k \<in> {''member_id'', ''email''}")
    case False
    with r(2) that show ?thesis by simp
  next
    case True
    then have inK: "k \<in> ?K" by auto
    have m: "map_of ?xs k = map_of d k"
      using inK by (simp only: map_of_filter_key items_def map_of_clearjunk if_True)
    have "k \<in> fst ` set ?xs \<longleftrightarrow> map_of d k \<noteq> None"
      using inK by (simp only: keys_filter_key items_def dom_clearjunk) (simp add: map_of_eq_None_iff)
    with r(2) that True m show ?thesis by auto
  qed
  with ex show ?thesis by blast
qed

lemma member_extract_no_email:
  "map_of d ''email'' = None \<Longrightarrow> member_extract E top_level d = Inl NoMemberEmailError"
  by (simp add: member_extract_def)

section \<open>The requests of the update and create paths\<close>

lemma status_to_lookup:
  assumes "map_of data ''status_to'' = None"
  shows "map_of (status_to E st data) ''status_to'' =
           (case st of
              VStatus c \<Rightarrow> if c \<in> {Active, Error, OptOut} then Some (get_code E c) else None
            | _ \<Rightarrow> None)"
  using assms by (cases st) (auto simp: status_to_def update_conv')

lemma update_data_ok:
  assumes "map_of d ''member_id'' = Some mid"
    and "map_of d ''email'' \<noteq> None"
    and "map_of d ''status'' = Some st"
  shows "\<exists>body. update_data E d = Inr ((''/members/%s'', Some mid), status_to E st body)
           \<and> map_of body ''status_to'' = None"
proof -
  from member_extract_default [OF assms(2), of E] obtain body where
    b: "member_extract E None d = Inr body"
       "\<forall>k. k \<noteq> ''fields'' \<longrightarrow> map_of body k =
              (if k \<in> {''member_id'', ''email''} then map_of d k else None)"
    by blast
  from b(2) have "map_of body ''status_to'' = None" by simp
  moreover have "update_data E d = Inr ((''/members/%s'', Some mid), status_to E st body)"
    using assms(1,3) b(1) by (simp add: update_data_def)
  ultimately show ?thesis by blast
qed

lemma update_data_no_email:
  "map_of d ''member_id'' = Some mid \<Longrightarrow> map_of d ''email'' = None
     \<Longrightarrow> update_data E d = Inl NoMemberEmailError"
  by (simp add: update_data_def member_extract_no_email)

lemma new_calls_append: "new_calls s (s'\<lparr>calls := calls s @ xs\<rparr>) = xs"
  by (simp add: new_calls_def)

lemma member_update_issued:
  assumes "update_data E (m_dict s) = Inr (p, data)"
  shows "calls (snd (member_update E s)) = calls s @ [Request PUT p (Some (VDict data))]"
    and "m_dict (snd (member_update E s)) = m_dict s"
    and "groups (snd (member_update E s)) = groups s"
    and "mailings (snd (member_update E s)) = mailings s"
  using assms by (auto simp: member_update_def call_def split: sum.splits)

lemma member_update_failed:
  assumes "update_data E (m_dict s) = Inl e"
  shows "member_update E s = (Inl e, s)"
  using assms by (simp add: member_update_def)

lemma groups_fetch_all_no_id:
  assumes "map_of (m_dict s) ''member_id'' = None"
  shows "groups_fetch_all E s = (Inl NoMemberIdError, s)"
  using assms by (simp add: groups_fetch_all_def)

lemma add_data_state:
  assumes "map_of (m_dict s) ''member_id'' = None"
  shows "snd (add_data E signup_form_id s) = s"
  using assms
  by (simp add: add_data_def groups_fetch_all_no_id split: sum.splits)

lemma add_data_ok:
  assumes "map_of (m_dict s) ''email'' \<noteq> None" and "groups s = []"
  shows "\<exists>data. add_data E signup_form_id s = (Inr data, s)"
proof -
  from member_extract_default [OF assms(1), of E] obtain body where
    "member_extract E None (m_dict s) = Inr body" by blast
  with assms(2) show ?thesis by (simp add: add_data_def)
qed

lemma add_data_no_email:
  "map_of (m_dict s) ''email'' = None \<Longrightarrow> add_data E signup_form_id s = (Inl NoMemberEmailError, s)"
  by (simp add: add_data_def member_extract_no_email)

lemma add_outcome_rest:
  "calls (snd (add_outcome E outcome s)) = calls s
   \<and> groups (snd (add_outcome E outcome s)) = groups s
   \<and> mailings (snd (add_outcome E outcome s)) = mailings s"
  by (simp add: add_outcome_def Let_def split: sum.splits)

lemma member_add_calls:
  assumes "map_of (m_dict s) ''member_id'' = None"
  shows "(case fst (add_data E signup_form_id s) of
            Inl e \<Rightarrow> member_add E signup_form_id s = (Inl e, s)
          | Inr data \<Rightarrow>
              calls (snd (member_add E signup_form_id s))
                = calls s @ [Request POST (''/members/add'', None) (Some (VDict data))])"
proof (cases "add_data E signup_form_id s")
  case (Pair res s1)
  with add_data_state [OF assms, of E signup_form_id] have s1: "s1 = s" by simp
  show ?thesis
  proof (cases res)
    case (Inl e)
    with Pair s1 show ?thesis by (simp add: member_add_def)
  next
    case (Inr data)
    with Pair s1 show ?thesis
      by (simp add: member_add_def call_def add_outcome_rest split: sum.splits prod.splits)
  qed
qed

subsection \<open>C1: save dispatches on the identity field\<close>

text \<open>
  C1, as stated, fails: a member without an \<^verbatim>\<open>email\<close> field is stopped by the test at the
  head of \<^verbatim>\<open>extract\<close>, so \<^verbatim>\<open>save\<close> raises \<^verbatim>\<open>NoMemberEmailError\<close> and issues no request at
  all, neither with nor without a \<^verbatim>\<open>member_id\<close>.
\<close>

theorem save_dispatch_counterexample:
  "save (example_account [] (Inr (VBool True))) VNone (member_with [])
     = (Inl NoMemberEmailError, member_with [])
   \<and> new_calls (member_with [])
        (snd (save (example_account [] (Inr (VBool True))) VNone (member_with []))) = []
   \<and> save (example_account [] (Inr (VBool True))) VNone (member_with [(''member_id'', VInt 55)])
     = (Inl NoMemberEmailError, member_with [(''member_id'', VInt 55)])
   \<and> new_calls (member_with [(''member_id'', VInt 55)])
        (snd (save (example_account [] (Inr (VBool True))) VNone
                (member_with [(''member_id'', VInt 55)]))) = []"
  by (simp add: save_def member_add_def add_data_def member_update_def update_data_def
                member_extract_def new_calls_def member_with_def)

text \<open>
  C1, amended: \<^verbatim>\<open>save\<close> issues at most one request and only appends to the requests issued
  before. Without an \<^verbatim>\<open>email\<close> field it raises \<^verbatim>\<open>NoMemberEmailError\<close> and leaves the state as
  it was. If \<^verbatim>\<open>member_id\<close> is absent, every request it issues is a \<^verbatim>\<open>post\<close> to
  \<^verbatim>\<open>/members/add\<close> (never a \<^verbatim>\<open>put\<close>), and it issues exactly one when \<^verbatim>\<open>email\<close> is present and
  no group is cached. If \<^verbatim>\<open>member_id\<close> is present, every request it issues is a \<^verbatim>\<open>put\<close> to
  \<^verbatim>\<open>/members/<member_id>\<close> (never a \<^verbatim>\<open>post\<close>), and it issues exactly one when \<^verbatim>\<open>email\<close> and
  \<^verbatim>\<open>status\<close> are present.
\<close>

theorem save_dispatch:
  "calls (snd (save E signup_form_id s)) = calls s @ new_calls s (snd (save E signup_form_id s))
   \<and> length (new_calls s (snd (save E signup_form_id s))) \<le> 1
   \<and> (map_of (m_dict s) ''email'' = None
        \<longrightarrow> save E signup_form_id s = (Inl NoMemberEmailError, s))
   \<and> (map_of (m_dict s) ''member_id'' = None \<longrightarrow>
        (\<forall>q \<in> set (new_calls s (snd (save E signup_form_id s))).
            \<exists>body. q = Request POST (''/members/add'', None) body)
        \<and> (map_of (m_dict s) ''email'' \<noteq> None \<and> groups s = []
             \<longrightarrow> length (new_calls s (snd (save E signup_form_id s))) = 1))
   \<and> (\<forall>mid. map_of (m_dict s) ''member_id'' = Some mid \<longrightarrow>
        (\<forall>q \<in> set (new_calls s (snd (save E signup_form_id s))).
            \<exists>body. q = Request PUT (''/members/%s'', Some mid) body)
        \<and> (map_of (m_dict s) ''email'' \<noteq> None \<and> map_of (m_dict s) ''status'' \<noteq> None
             \<longrightarrow> length (new_calls s (snd (save E signup_form_id s))) = 1))"
proof (cases "map_of (m_dict s) ''member_id''")
  case None
  then have sv: "save E signup_form_id s = member_add E signup_form_id s"
    by (simp add: save_def)
  show ?thesis
  proof (cases "fst (add_data E signup_form_id s)")
    case (Inl e)
    with member_add_calls [OF None, of E signup_form_id]
    have "member_add E signup_form_id s = (Inl e, s)" by simp
    moreover have "\<not> (map_of (m_dict s) ''email'' \<noteq> None \<and> groups s = [])"
      using add_data_ok [of s E signup_form_id] Inl by auto
    moreover have "map_of (m_dict s) ''email'' = None \<longrightarrow> e = NoMemberEmailError"
      using Inl add_data_no_email [of s E signup_form_id]
      by (cases "map_of (m_dict s) ''email''") simp_all
    ultimately show ?thesis using None by (auto simp: sv new_calls_def)
  next
    case (Inr data)
    with member_add_calls [OF None, of E signup_form_id]
    have "calls (snd (member_add E signup_form_id s))
            = calls s @ [Request POST (''/members/add'', None) (Some (VDict data))]" by simp
    moreover have "map_of (m_dict s) ''email'' \<noteq> None"
      using Inr add_data_no_email [of s E signup_form_id]
      by (cases "map_of (m_dict s) ''email''") simp_all
    ultimately show ?thesis using None by (auto simp: sv new_calls_def)
  qed
next
  case (Some mid)
  then have sv: "save E signup_form_id s = member_update E s"
    by (simp add: save_def)
  show ?thesis
  proof (cases "update_data E (m_dict s)")
    case (Inl e)
    have "\<not> (map_of (m_dict s) ''email'' \<noteq> None \<and> map_of (m_dict s) ''status'' \<noteq> None)"
      using update_data_ok [OF Some, of _ E] Inl by fastforce
    moreover have "map_of (m_dict s) ''email'' = None \<longrightarrow> e = NoMemberEmailError"
      using Inl update_data_no_email [OF Some, of E]
      by (cases "map_of (m_dict s) ''email''") simp_all
    ultimately show ?thesis
      using member_update_failed [OF Inl] Some by (auto simp: sv new_calls_def)
  next
    case (Inr pd)
    obtain p data where pd: "pd = (p, data)" by (cases pd)
    have p: "p = (''/members/%s'', Some mid)"
      using Inr Some pd by (auto simp: update_data_def split: sum.splits option.splits)
    have "map_of (m_dict s) ''email'' \<noteq> None"
      using Inr update_data_no_email [OF Some, of E]
      by (cases "map_of (m_dict s) ''email''") simp_all
    with member_update_issued(1) [OF Inr [unfolded pd]] Some p show ?thesis
      by (auto simp: sv new_calls_def)
  qed
qed

theorem save_dispatch_witness:
  "save (example_account [] (Inr VNone)) VNone (member_with [(''first_name'', VStr ''X'')])
     = (Inl NoMemberEmailError, member_with [(''first_name'', VStr ''X'')])
   \<and> (\<exists>body. new_calls (member_with [(''email'', VStr ''new@example.com'')])
          (snd (save (example_account [] (Inr VNone)) VNone
                  (member_with [(''email'', VStr ''new@example.com'')])))
        = [Request POST (''/members/add'', None) body])
   \<and> (\<exists>body. new_calls (member_with [(''member_id'', VInt 55), (''email'', VStr ''a@b.com''),
                                   (''status'', VStatus Forwarded)])
          (snd (save (example_account [] (Inr VNone)) VNone
                  (member_with [(''member_id'', VInt 55), (''email'', VStr ''a@b.com''),
                                   (''status'', VStatus Forwarded)])))
        = [Request PUT (''/members/%s'', Some (VInt 55)) body])"
proof -
  let ?E = "example_account [] (Inr VNone)"
  let ?n = "member_with [(''first_name'', VStr ''X'')]"
  let ?c = "member_with [(''email'', VStr ''new@example.com'')]"
  let ?u = "member_with [(''member_id'', VInt 55), (''email'', VStr ''a@b.com''),
                         (''status'', VStatus Forwarded)]"
  have one: "\<exists>b. xs = [f b]" if "length xs = 1" and "\<forall>q \<in> set xs. \<exists>b. q = f b"
    for xs :: "request list" and f :: "val option \<Rightarrow> request"
    using that by (cases xs) auto
  have n: "save ?E VNone ?n = (Inl NoMemberEmailError, ?n)"
    using save_dispatch [of ?E VNone ?n] by (simp add: member_with_def)
  have c: "length (new_calls ?c (snd (save ?E VNone ?c))) = 1"
      "\<forall>q \<in> set (new_calls ?c (snd (save ?E VNone ?c))).
          \<exists>body. q = Request POST (''/members/add'', None) body"
    using save_dispatch [of ?E VNone ?c] by (simp_all add: member_with_def)
  have u: "length (new_calls ?u (snd (save ?E VNone ?u))) = 1"
      "\<forall>q \<in> set (new_calls ?u (snd (save ?E VNone ?u))).
          \<exists>body. q = Request PUT (''/members/%s'', Some (VInt 55)) body"
    using save_dispatch [of ?E VNone ?u] by (simp_all add: member_with_def)
  from n one [OF c] one [OF u] show ?thesis by blast
qed

subsection \<open>C3: the transition field of the update body\<close>

text \<open>
  C3: for a member with \<^verbatim>\<open>member_id\<close>, \<^verbatim>\<open>email\<close> and \<^verbatim>\<open>status\<close>, \<^verbatim>\<open>save\<close> issues one \<^verbatim>\<open>put\<close> to
  \<^verbatim>\<open>/members/<member_id>\<close> whose body has \<^verbatim>\<open>status_to\<close> equal to the wire code of the status
  when the status is Active, Error or OptOut, and has no \<^verbatim>\<open>status_to\<close> key for any other
  status.
\<close>

theorem update_body_status_to:
  assumes "map_of (m_dict s) ''member_id'' = Some mid"
    and "map_of (m_dict s) ''email'' \<noteq> None"
    and "map_of (m_dict s) ''status'' = Some st"
  shows "\<exists>data. new_calls s (snd (save E signup_form_id s))
                   = [Request PUT (''/members/%s'', Some mid) (Some (VDict data))]
           \<and> (\<forall>c. st = VStatus c \<and> c \<in> {Active, Error, OptOut}
                  \<longrightarrow> map_of data ''status_to'' = Some (get_code E c))
           \<and> (st \<notin> {VStatus Active, VStatus Error, VStatus OptOut}
                  \<longrightarrow> map_of data ''status_to'' = None)"
proof -
  from update_data_ok [OF assms, of E] obtain body where
    b: "update_data E (m_dict s) = Inr ((''/members/%s'', Some mid), status_to E st body)"
       "map_of body ''status_to'' = None"
    by blast
  let ?data = "status_to E st body"
  have sv: "save E signup_form_id s = member_update E s"
    using assms(1) by (simp add: save_def)
  have "new_calls s (snd (save E signup_form_id s))
          = [Request PUT (''/members/%s'', Some mid) (Some (VDict ?data))]"
    using member_update_issued(1) [OF b(1)] by (simp add: sv new_calls_def)
  moreover have "\<forall>c. st = VStatus c \<and> c \<in> {Active, Error, OptOut}
                  \<longrightarrow> map_of ?data ''status_to'' = Some (get_code E c)"
    using status_to_lookup [OF b(2), of E st] by auto
  moreover have "st \<notin> {VStatus Active, VStatus Error, VStatus OptOut}
                  \<longrightarrow> map_of ?data ''status_to'' = None"
    using status_to_lookup [OF b(2), of E st] by (cases st) auto
  ultimately show ?thesis by blast
qed

theorem update_body_status_to_witness:
  "(\<exists>data. new_calls (member_with [(''member_id'', VInt 55), (''email'', VStr ''a@b.com''),
                                     (''status'', VStatus Active)])
              (snd (save (example_account [] (Inr (VBool True))) VNone
                      (member_with [(''member_id'', VInt 55), (''email'', VStr ''a@b.com''),
                                    (''status'', VStatus Active)])))
            = [Request PUT (''/members/%s'', Some (VInt 55)) (Some (VDict data))]
          \<and> map_of data ''status_to'' = Some (VStr ''a''))
   \<and> (\<exists>data. new_calls (member_with [(''member_id'', VInt 55), (''email'', VStr ''a@b.com''),
                                     (''status'', VStatus Forwarded)])
              (snd (save (example_account [] (Inr (VBool True))) VNone
                      (member_with [(''member_id'', VInt 55), (''email'', VStr ''a@b.com''),
                                    (''status'', VStatus Forwarded)])))
            = [Request PUT (''/members/%s'', Some (VInt 55)) (Some (VDict data))]
          \<and> map_of data ''status_to'' = None)"
proof -
  let ?E = "example_account [] (Inr (VBool True))"
  let ?a = "member_with [(''member_id'', VInt 55), (''email'', VStr ''a@b.com''),
                         (''status'', VStatus Active)]"
  let ?f = "member_with [(''member_id'', VInt 55), (''email'', VStr ''a@b.com''),
                         (''status'', VStatus Forwarded)]"
  have a1: "map_of (m_dict ?a) ''member_id'' = Some (VInt 55)"
    and a2: "map_of (m_dict ?a) ''email'' \<noteq> None"
    and a3: "map_of (m_dict ?a) ''status'' = Some (VStatus Active)"
    by (simp_all add: member_with_def)
  have f1: "map_of (m_dict ?f) ''member_id'' = Some (VInt 55)"
    and f2: "map_of (m_dict ?f) ''email'' \<noteq> None"
    and f3: "map_of (m_dict ?f) ''status'' = Some (VStatus Forwarded)"
    by (simp_all add: member_with_def)
  have c: "get_code ?E Active = VStr ''a''"
    by (simp add: example_account_def example_code_def)
  from update_body_status_to [OF a1 a2 a3, of ?E VNone] c
       update_body_status_to [OF f1 f2 f3, of ?E VNone]
  show ?thesis by auto
qed

subsection \<open>C4: a falsy answer to the update\<close>

text \<open>
  C4: on the update path, when the \<^verbatim>\<open>put\<close> the code issues is answered with a falsy value,
  \<^verbatim>\<open>save\<close> raises \<^verbatim>\<open>MemberUpdateError\<close>; the member's fields and collections are what they
  were before the call, and the \<^verbatim>\<open>put\<close> is the only request issued.
\<close>

theorem update_failure_keeps_fields:
  assumes "map_of (m_dict s) ''member_id'' = Some mid"
    and "update_data E (m_dict s) = Inr (p, data)"
    and "adapter E (calls s) (Request PUT p (Some (VDict data))) = Inr r"
    and "\<not> truthy r"
  shows "fst (save E signup_form_id s) = Inl MemberUpdateError
         \<and> m_dict (snd (save E signup_form_id s)) = m_dict s
         \<and> groups (snd (save E signup_form_id s)) = groups s
         \<and> mailings (snd (save E signup_form_id s)) = mailings s
         \<and> new_calls s (snd (save E signup_form_id s)) = [Request PUT p (Some (VDict data))]"
  using assms by (simp add: save_def member_update_def call_def new_calls_def)

theorem update_failure_keeps_fields_witness:
  "fst (save (example_account [] (Inr VNone)) VNone
          (member_with [(''member_id'', VInt 55), (''email'', VStr ''a@b.com''),
                        (''status'', VStatus Active)])) = Inl MemberUpdateError
   \<and> m_dict (snd (save (example_account [] (Inr VNone)) VNone
          (member_with [(''member_id'', VInt 55), (''email'', VStr ''a@b.com''),
                        (''status'', VStatus Active)])))
       = [(''member_id'', VInt 55), (''email'', VStr ''a@b.com''), (''status'', VStatus Active)]"
proof -
  let ?E = "example_account [] (Inr VNone)"
  let ?s = "member_with [(''member_id'', VInt 55), (''email'', VStr ''a@b.com''),
                         (''status'', VStatus Active)]"
  let ?p = "(''/members/%s'', Some (VInt 55))"
  let ?data = "[(''member_id'', VInt 55), (''email'', VStr ''a@b.com''), (''status_to'', VStr ''a'')]"
  have h1: "map_of (m_dict ?s) ''member_id'' = Some (VInt 55)"
    by (simp add: member_with_def)
  have h2: "update_data ?E (m_dict ?s) = Inr (?p, ?data)"
    by (simp add: update_data_def member_extract_def items_def squash_def status_to_def
                  member_with_def example_account_def example_code_def)
  have h3: "adapter ?E (calls ?s) (Request PUT ?p (Some (VDict ?data))) = Inr VNone"
    by (simp add: example_account_def)
  have h4: "\<not> truthy VNone" by simp
  from update_failure_keeps_fields [OF h1 h2 h3 h4, of VNone]
  show ?thesis by (simp add: member_with_def)
qed

subsection \<open>C6: the answer to the create call\<close>

text \<open>
  C6: on the create path, when the \<^verbatim>\<open>post\<close> is answered with a dictionary that carries a
  recognised \<^verbatim>\<open>status\<close> code and an \<^verbatim>\<open>added\<close> flag (and a \<^verbatim>\<open>member_id\<close> when the flag is
  truthy), \<^verbatim>\<open>save\<close> returns normally, the local \<^verbatim>\<open>status\<close> is the status resolved from the
  code, \<^verbatim>\<open>member_id\<close> is set to the server's value exactly when the flag is truthy, and no
  other field changes. Whatever the answer, a \<^verbatim>\<open>member_id\<close> present after \<^verbatim>\<open>save\<close> is the one
  the server sent with a truthy \<^verbatim>\<open>added\<close> flag: none is invented locally.
\<close>

theorem create_outcome:
  assumes "map_of (m_dict s) ''member_id'' = None"
  shows "(\<forall>data outcome c st a i.
            fst (add_data E signup_form_id s) = Inr data
            \<and> adapter E (calls s) (Request POST (''/members/add'', None) (Some (VDict data))) = Inr outcome
            \<and> subscript outcome ''status'' = Inr c \<and> factory E c = Inr st
            \<and> subscript outcome ''added'' = Inr a
            \<and> (truthy a \<longrightarrow> subscript outcome ''member_id'' = Inr i)
            \<longrightarrow> fst (save E signup_form_id s) = Inr ()
              \<and> map_of (m_dict (snd (save E signup_form_id s))) ''status'' = Some (VStatus st)
              \<and> map_of (m_dict (snd (save E signup_form_id s))) ''member_id''
                  = (if truthy a then Some i else None)
              \<and> (\<forall>k. k \<noteq> ''status'' \<and> k \<noteq> ''member_id'' \<longrightarrow>
                    map_of (m_dict (snd (save E signup_form_id s))) k = map_of (m_dict s) k))
         \<and> (\<forall>i. map_of (m_dict (snd (save E signup_form_id s))) ''member_id'' = Some i \<longrightarrow>
              (\<exists>data outcome a.
                  fst (add_data E signup_form_id s) = Inr data
                  \<and> adapter E (calls s) (Request POST (''/members/add'', None) (Some (VDict data))) = Inr outcome
                  \<and> subscript outcome ''added'' = Inr a \<and> truthy a
                  \<and> subscript outcome ''member_id'' = Inr i))"
proof -
  have sv: "save E signup_form_id s = member_add E signup_form_id s"
    using assms by (simp add: save_def)
  obtain res where ad: "add_data E signup_form_id s = (res, s)"
    using add_data_state [OF assms, of E signup_form_id]
    by (cases "add_data E signup_form_id s") simp
  show ?thesis
    using assms ad
    by (cases res)
       (auto simp: sv member_add_def call_def add_outcome_def Let_def update_conv'
             split: sum.splits if_splits)
qed

theorem create_outcome_witness:
  "fst (save (example_account []
               (Inr (VDict [(''added'', VBool True), (''member_id'', VInt 55), (''status'', VStr ''a'')])))
          VNone (member_with [(''email'', VStr ''new@example.com'')])) = Inr ()
   \<and> map_of (m_dict (snd (save (example_account []
               (Inr (VDict [(''added'', VBool True), (''member_id'', VInt 55), (''status'', VStr ''a'')])))
          VNone (member_with [(''email'', VStr ''new@example.com'')])))) ''member_id'' = Some (VInt 55)
   \<and> map_of (m_dict (snd (save (example_account []
               (Inr (VDict [(''added'', VBool True), (''member_id'', VInt 55), (''status'', VStr ''a'')])))
          VNone (member_with [(''email'', VStr ''new@example.com'')])))) ''status'' = Some (VStatus Active)"
proof -
  let ?out = "VDict [(''added'', VBool True), (''member_id'', VInt 55), (''status'', VStr ''a'')]"
  let ?E = "example_account [] (Inr ?out)"
  let ?s = "member_with [(''email'', VStr ''new@example.com'')]"
  have h1: "map_of (m_dict ?s) ''member_id'' = None"
    by (simp add: member_with_def)
  have h2: "fst (add_data ?E VNone ?s) = Inr [(''email'', VStr ''new@example.com'')]
            \<and> adapter ?E (calls ?s) (Request POST (''/members/add'', None)
                  (Some (VDict [(''email'', VStr ''new@example.com'')]))) = Inr ?out
            \<and> subscript ?out ''status'' = Inr (VStr ''a'') \<and> factory ?E (VStr ''a'') = Inr Active
            \<and> subscript ?out ''added'' = Inr (VBool True)
            \<and> (truthy (VBool True) \<longrightarrow> subscript ?out ''member_id'' = Inr (VInt 55))"
    by (simp add: add_data_def member_extract_def items_def squash_def member_with_def
                  example_account_def example_factory_def)
  from create_outcome [OF h1, of ?E VNone, THEN conjunct1, rule_format, OF h2]
  show ?thesis by simp
qed

section \<open>Opting out\<close>

subsection \<open>C7: opt_out\<close>

text \<open>
  C7: without an \<^verbatim>\<open>email\<close> field \<^verbatim>\<open>opt_out\<close> raises \<^verbatim>\<open>NoMemberEmailError\<close> and issues no
  request (the state, with its log of requests, is unchanged). With an \<^verbatim>\<open>email\<close> field it
  issues exactly one \<^verbatim>\<open>put\<close> to \<^verbatim>\<open>/members/email/optout/<email>\<close>; the local \<^verbatim>\<open>status\<close> becomes
  OptOut when the answer is truthy, and the fields are unchanged when it is falsy or when
  the adapter raises.
\<close>

theorem opt_out_contract:
  "(map_of (m_dict s) ''email'' = None \<longrightarrow> opt_out E s = (Inl NoMemberEmailError, s))
   \<and> (\<forall>email. map_of (m_dict s) ''email'' = Some email \<longrightarrow>
        new_calls s (snd (opt_out E s))
          = [Request PUT (''/members/email/optout/%s'', Some email) None]
        \<and> groups (snd (opt_out E s)) = groups s
        \<and> mailings (snd (opt_out E s)) = mailings s
        \<and> (\<forall>r. adapter E (calls s) (Request PUT (''/members/email/optout/%s'', Some email) None) = Inr r
              \<longrightarrow> fst (opt_out E s) = Inr ()
                \<and> m_dict (snd (opt_out E s))
                    = (if truthy r then AList.update ''status'' (VStatus OptOut) (m_dict s)
                       else m_dict s))
        \<and> (\<forall>e. adapter E (calls s) (Request PUT (''/members/email/optout/%s'', Some email) None) = Inl e
              \<longrightarrow> fst (opt_out E s) = Inl e \<and> m_dict (snd (opt_out E s)) = m_dict s))"
  by (auto simp: opt_out_def call_def new_calls_def split: sum.splits)

theorem opt_out_contract_witness:
  "opt_out (example_account [] (Inr (VBool True))) (member_with [(''first_name'', VStr ''X'')])
     = (Inl NoMemberEmailError, member_with [(''first_name'', VStr ''X'')])
   \<and> new_calls (member_with [(''email'', VStr ''a@b.com'')])
        (snd (opt_out (example_account [] (Inr (VBool True))) (member_with [(''email'', VStr ''a@b.com'')])))
       = [Request PUT (''/members/email/optout/%s'', Some (VStr ''a@b.com'')) None]
   \<and> m_dict (snd (opt_out (example_account [] (Inr (VBool True)))
                     (member_with [(''email'', VStr ''a@b.com'')])))
       = [(''email'', VStr ''a@b.com''), (''status'', VStatus OptOut)]
   \<and> m_dict (snd (opt_out (example_account [] (Inr VNone))
                     (member_with [(''email'', VStr ''a@b.com'')])))
       = [(''email'', VStr ''a@b.com'')]"
  using opt_out_contract [of "member_with [(''first_name'', VStr ''X'')]"
          "example_account [] (Inr (VBool True))"]
        opt_out_contract [of "member_with [(''email'', VStr ''a@b.com'')]"
          "example_account [] (Inr (VBool True))"]
        opt_out_contract [of "member_with [(''email'', VStr ''a@b.com'')]"
          "example_account [] (Inr VNone)"]
  by (simp add: member_with_def example_account_def)

subsection \<open>C9: get_opt_out_detail\<close>

text \<open>
  C9: the claim holds of the members that have a \<^verbatim>\<open>status\<close> field (lemma
  \<open>get_opt_out_detail_cases\<close> below), but on a member with a \<^verbatim>\<open>member_id\<close> and no \<^verbatim>\<open>status\<close>
  field, whose status is therefore not OptOut, the code does not return the empty result:
  the unguarded \<^verbatim>\<open>self._dict['status']\<close> raises \<^verbatim>\<open>KeyError\<close>. The sibling
  \<^verbatim>\<open>has_opted_out\<close> tests for the key and raises \<^verbatim>\<open>NoMemberStatusError\<close> on the same member.
\<close>

theorem get_opt_out_detail_without_status:
  "get_opt_out_detail E (member_with [(''member_id'', VInt 5)])
     = (Inl (KeyError ''status''), member_with [(''member_id'', VInt 5)])
   \<and> has_opted_out (member_with [(''member_id'', VInt 5)])
     = (Inl NoMemberStatusError, member_with [(''member_id'', VInt 5)])"
  by (simp add: get_opt_out_detail_def has_opted_out_def member_with_def)

lemma get_opt_out_detail_cases:
  "(map_of (m_dict s) ''member_id'' = None \<longrightarrow> get_opt_out_detail E s = (Inl NoMemberIdError, s))
   \<and> (\<forall>mid st. map_of (m_dict s) ''member_id'' = Some mid \<and> map_of (m_dict s) ''status'' = Some st
         \<longrightarrow> (st \<noteq> VStatus OptOut \<longrightarrow> get_opt_out_detail E s = (Inr (VList []), s))
           \<and> (st = VStatus OptOut \<longrightarrow>
                 get_opt_out_detail E s
                   = (adapter E (calls s) (Request GET (''/members/%s/optout'', Some mid) None),
                      s\<lparr>calls := calls s @ [Request GET (''/members/%s/optout'', Some mid) None]\<rparr>)))"
  by (auto simp: get_opt_out_detail_def call_def)

section \<open>The collections\<close>

lemma fetch_entities_state:
  "snd (fetch_entities E p key ctor s) = s\<lparr>calls := calls s @ [Request GET p None]\<rparr>"
  by (simp add: fetch_entities_def call_def split: sum.splits)

lemma fetch_entities_empty:
  assumes "adapter E (calls s) (Request GET p None) = Inr r" and "py_iter r = Inr []"
  shows "fst (fetch_entities E p key ctor s) = Inr []"
  using assms by (simp add: fetch_entities_def call_def py_dict_def)

lemma groups_fetch_all_unpopulated:
  assumes "map_of (m_dict s) ''member_id'' = Some mid" and "groups s = []"
  shows "calls (snd (groups_fetch_all E s))
           = calls s @ [Request GET (''/members/%s/groups'', Some mid) None]"
    and "m_dict (snd (groups_fetch_all E s)) = m_dict s"
    and "mailings (snd (groups_fetch_all E s)) = mailings s"
    and "groups (snd (groups_fetch_all E s))
           = (case fst (groups_fetch_all E s) of Inl e \<Rightarrow> [] | Inr d \<Rightarrow> d)"
    and "fst (groups_fetch_all E s)
           = fst (fetch_entities E (''/members/%s/groups'', Some mid) ''group_name'' (new_group E) s)"
  using assms fetch_entities_state [of E "(''/members/%s/groups'', Some mid)" "''group_name''" "new_group E" s]
  by (auto simp: groups_fetch_all_def split: sum.splits prod.splits)

lemma mailings_fetch_all_unpopulated:
  assumes "map_of (m_dict s) ''member_id'' = Some mid" and "mailings s = []"
  shows "calls (snd (mailings_fetch_all E s))
           = calls s @ [Request GET (''/members/%s/mailings'', Some mid) None]"
    and "m_dict (snd (mailings_fetch_all E s)) = m_dict s"
    and "groups (snd (mailings_fetch_all E s)) = groups s"
    and "mailings (snd (mailings_fetch_all E s))
           = (case fst (mailings_fetch_all E s) of Inl e \<Rightarrow> [] | Inr d \<Rightarrow> d)"
    and "fst (mailings_fetch_all E s)
           = fst (fetch_entities E (''/members/%s/mailings'', Some mid) ''mailing_id'' (new_mailing E) s)"
  using assms fetch_entities_state [of E "(''/members/%s/mailings'', Some mid)" "''mailing_id''" "new_mailing E" s]
  by (auto simp: mailings_fetch_all_def split: sum.splits prod.splits)

lemma groups_fetch_all_populated:
  assumes "map_of (m_dict s) ''member_id'' \<noteq> None" and "groups s \<noteq> []"
  shows "groups_fetch_all E s = (Inr (groups s), s)"
  using assms by (auto simp: groups_fetch_all_def)

lemma mailings_fetch_all_populated:
  assumes "map_of (m_dict s) ''member_id'' \<noteq> None" and "mailings s \<noteq> []"
  shows "mailings_fetch_all E s = (Inr (mailings s), s)"
  using assms by (auto simp: mailings_fetch_all_def)

subsection \<open>C10: an empty answer leaves the collection unpopulated\<close>

text \<open>
  C10: for either collection of a member with a \<^verbatim>\<open>member_id\<close> and an empty cache, when the
  \<^verbatim>\<open>get\<close> is answered with an empty sequence, \<^verbatim>\<open>fetch_all\<close> returns the empty mapping, the
  cache is still empty afterwards, and the next \<^verbatim>\<open>fetch_all\<close> issues the \<^verbatim>\<open>get\<close> again.
\<close>

theorem empty_fetch_not_cached:
  "(\<forall>mid r. map_of (m_dict s) ''member_id'' = Some mid \<and> groups s = []
        \<and> adapter E (calls s) (Request GET (''/members/%s/groups'', Some mid) None) = Inr r
        \<and> py_iter r = Inr []
      \<longrightarrow> fst (groups_fetch_all E s) = Inr []
        \<and> groups (snd (groups_fetch_all E s)) = []
        \<and> new_calls s (snd (groups_fetch_all E s))
            = [Request GET (''/members/%s/groups'', Some mid) None]
        \<and> new_calls (snd (groups_fetch_all E s)) (snd (groups_fetch_all E (snd (groups_fetch_all E s))))
            = [Request GET (''/members/%s/groups'', Some mid) None])
   \<and> (\<forall>mid r. map_of (m_dict s) ''member_id'' = Some mid \<and> mailings s = []
        \<and> adapter E (calls s) (Request GET (''/members/%s/mailings'', Some mid) None) = Inr r
        \<and> py_iter r = Inr []
      \<longrightarrow> fst (mailings_fetch_all E s) = Inr []
        \<and> mailings (snd (mailings_fetch_all E s)) = []
        \<and> new_calls s (snd (mailings_fetch_all E s))
            = [Request GET (''/members/%s/mailings'', Some mid) None]
        \<and> new_calls (snd (mailings_fetch_all E s)) (snd (mailings_fetch_all E (snd (mailings_fetch_all E s))))
            = [Request GET (''/members/%s/mailings'', Some mid) None])"
proof (intro conjI allI impI)
  fix mid r
  assume a: "map_of (m_dict s) ''member_id'' = Some mid \<and> groups s = []
        \<and> adapter E (calls s) (Request GET (''/members/%s/groups'', Some mid) None) = Inr r
        \<and> py_iter r = Inr []"
  let ?s1 = "snd (groups_fetch_all E s)"
  note u = groups_fetch_all_unpopulated [of s mid E]
  from a have res: "fst (groups_fetch_all E s) = Inr []"
    using u(5) fetch_entities_empty [of E s "(''/members/%s/groups'', Some mid)" r] by simp
  from a res have g1: "groups ?s1 = []" using u(4) by simp
  from a have m1: "map_of (m_dict ?s1) ''member_id'' = Some mid" using u(2) by simp
  show "fst (groups_fetch_all E s) = Inr []" by (rule res)
  show "groups ?s1 = []" by (rule g1)
  show "new_calls s ?s1 = [Request GET (''/members/%s/groups'', Some mid) None]"
    using a u(1) by (simp add: new_calls_def)
  show "new_calls ?s1 (snd (groups_fetch_all E ?s1)) = [Request GET (''/members/%s/groups'', Some mid) None]"
    using groups_fetch_all_unpopulated(1) [OF m1 g1, of E] by (simp add: new_calls_def)
next
  fix mid r
  assume a: "map_of (m_dict s) ''member_id'' = Some mid \<and> mailings s = []
        \<and> adapter E (calls s) (Request GET (''/members/%s/mailings'', Some mid) None) = Inr r
        \<and> py_iter r = Inr []"
  let ?s1 = "snd (mailings_fetch_all E s)"
  note u = mailings_fetch_all_unpopulated [of s mid E]
  from a have res: "fst (mailings_fetch_all E s) = Inr []"
    using u(5) fetch_entities_empty [of E s "(''/members/%s/mailings'', Some mid)" r] by simp
  from a res have g1: "mailings ?s1 = []" using u(4) by simp
  from a have m1: "map_of (m_dict ?s1) ''member_id'' = Some mid" using u(2) by simp
  show "fst (mailings_fetch_all E s) = Inr []" by (rule res)
  show "mailings ?s1 = []" by (rule g1)
  show "new_calls s ?s1 = [Request GET (''/members/%s/mailings'', Some mid) None]"
    using a u(1) by (simp add: new_calls_def)
  show "new_calls ?s1 (snd (mailings_fetch_all E ?s1)) = [Request GET (''/members/%s/mailings'', Some mid) None]"
    using mailings_fetch_all_unpopulated(1) [OF m1 g1, of E] by (simp add: new_calls_def)
qed

theorem empty_fetch_not_cached_witness:
  "groups (snd (groups_fetch_all (example_account [] (Inr (VList [])))
                  (member_with [(''member_id'', VInt 5)]))) = []
   \<and> new_calls (snd (groups_fetch_all (example_account [] (Inr (VList [])))
                       (member_with [(''member_id'', VInt 5)])))
        (snd (groups_fetch_all (example_account [] (Inr (VList [])))
           (snd (groups_fetch_all (example_account [] (Inr (VList [])))
                   (member_with [(''member_id'', VInt 5)])))))
       = [Request GET (''/members/%s/groups'', Some (VInt 5)) None]
   \<and> mailings (snd (mailings_fetch_all (example_account [] (Inr (VList [])))
                  (member_with [(''member_id'', VInt 5)]))) = []
   \<and> new_calls (snd (mailings_fetch_all (example_account [] (Inr (VList [])))
                       (member_with [(''member_id'', VInt 5)])))
        (snd (mailings_fetch_all (example_account [] (Inr (VList [])))
           (snd (mailings_fetch_all (example_account [] (Inr (VList [])))
                   (member_with [(''member_id'', VInt 5)])))))
       = [Request GET (''/members/%s/mailings'', Some (VInt 5)) None]"
proof -
  let ?E = "example_account [] (Inr (VList []))"
  let ?s = "member_with [(''member_id'', VInt 5)]"
  have g: "map_of (m_dict ?s) ''member_id'' = Some (VInt 5) \<and> groups ?s = []
        \<and> adapter ?E (calls ?s) (Request GET (''/members/%s/groups'', Some (VInt 5)) None) = Inr (VList [])
        \<and> py_iter (VList []) = Inr []"
    by (simp add: member_with_def example_account_def)
  have m: "map_of (m_dict ?s) ''member_id'' = Some (VInt 5) \<and> mailings ?s = []
        \<and> adapter ?E (calls ?s) (Request GET (''/members/%s/mailings'', Some (VInt 5)) None) = Inr (VList [])
        \<and> py_iter (VList []) = Inr []"
    by (simp add: member_with_def example_account_def)
  from empty_fetch_not_cached [of ?s ?E, THEN conjunct1, rule_format, OF g]
       empty_fetch_not_cached [of ?s ?E, THEN conjunct2, rule_format, OF m]
  show ?thesis by simp
qed

subsection \<open>C5: fetch_all memoizes a populated cache\<close>

text \<open>
  No operation of a member issues a \<^verbatim>\<open>get\<close> for a collection, or changes its cache,
  while the cache is not empty.
\<close>

lemma save_no_get:
  "\<exists>new. calls (snd (save E signup_form_id s)) = calls s @ new
         \<and> (\<forall>q \<in> set new. \<not> is_get fmt q)"
proof (cases "map_of (m_dict s) ''member_id''")
  case None
  then have sv: "save E signup_form_id s = member_add E signup_form_id s"
    by (simp add: save_def)
  show ?thesis
  proof (cases "fst (add_data E signup_form_id s)")
    case (Inl e)
    with member_add_calls [OF None, of E signup_form_id] show ?thesis by (simp add: sv)
  next
    case (Inr data)
    with member_add_calls [OF None, of E signup_form_id] show ?thesis by (simp add: sv)
  qed
next
  case (Some mid)
  then have sv: "save E signup_form_id s = member_update E s"
    by (simp add: save_def)
  show ?thesis
  proof (cases "update_data E (m_dict s)")
    case (Inl e)
    with member_update_failed [OF Inl] show ?thesis by (simp add: sv)
  next
    case (Inr pd)
    obtain p data where pd: "pd = (p, data)" by (cases pd)
    from member_update_issued(1) [OF Inr [unfolded pd]] show ?thesis by (simp add: sv)
  qed
qed

lemma save_keeps_caches:
  "groups (snd (save E signup_form_id s)) = groups s
   \<and> mailings (snd (save E signup_form_id s)) = mailings s"
proof (cases "map_of (m_dict s) ''member_id''")
  case None
  obtain res where ad: "add_data E signup_form_id s = (res, s)"
    using add_data_state [OF None, of E signup_form_id]
    by (cases "add_data E signup_form_id s") simp
  show ?thesis
    using None ad add_outcome_rest
    by (cases res) (auto simp: save_def member_add_def call_def split: sum.splits)
next
  case (Some mid)
  then show ?thesis
    by (auto simp: save_def member_update_def call_def split: sum.splits prod.splits)
qed

lemma step_groups_populated:
  assumes "groups s \<noteq> []"
  shows "groups (step E x s) = groups s
         \<and> (\<exists>new. calls (step E x s) = calls s @ new
                \<and> (\<forall>q \<in> set new. \<not> is_get ''/members/%s/groups'' q))"
proof (cases x)
  case (Save signup_form_id)
  with save_no_get [of E signup_form_id s "''/members/%s/groups''"] save_keeps_caches [of E signup_form_id s]
  show ?thesis by simp
next
  case OptOutOp
  then show ?thesis by (auto simp: opt_out_def call_def split: option.splits sum.splits)
next
  case GetOptOutDetail
  then show ?thesis by (auto simp: get_opt_out_detail_def call_def split: option.splits)
next
  case HasOptedOut
  then show ?thesis by (auto simp: has_opted_out_def split: option.splits)
next
  case GroupsFetchAll
  with assms show ?thesis by (auto simp: groups_fetch_all_def split: option.splits)
next
  case MailingsFetchAll
  then show ?thesis
    by (auto simp: mailings_fetch_all_def fetch_entities_state fetch_entities_def call_def
             split: option.splits sum.splits prod.splits)
qed

lemma step_mailings_populated:
  assumes "mailings s \<noteq> []"
  shows "mailings (step E x s) = mailings s
         \<and> (\<exists>new. calls (step E x s) = calls s @ new
                \<and> (\<forall>q \<in> set new. \<not> is_get ''/members/%s/mailings'' q))"
proof (cases x)
  case (Save signup_form_id)
  with save_no_get [of E signup_form_id s "''/members/%s/mailings''"] save_keeps_caches [of E signup_form_id s]
  show ?thesis by simp
next
  case OptOutOp
  then show ?thesis by (auto simp: opt_out_def call_def split: option.splits sum.splits)
next
  case GetOptOutDetail
  then show ?thesis by (auto simp: get_opt_out_detail_def call_def split: option.splits)
next
  case HasOptedOut
  then show ?thesis by (auto simp: has_opted_out_def split: option.splits)
next
  case MailingsFetchAll
  with assms show ?thesis by (auto simp: mailings_fetch_all_def split: option.splits)
next
  case GroupsFetchAll
  then show ?thesis
    by (auto simp: groups_fetch_all_def fetch_entities_state fetch_entities_def call_def
             split: option.splits sum.splits prod.splits)
qed

lemma run_groups_populated:
  assumes "groups s \<noteq> []"
  shows "groups (run E ops s) = groups s
         \<and> (\<exists>new. calls (run E ops s) = calls s @ new
                \<and> (\<forall>q \<in> set new. \<not> is_get ''/members/%s/groups'' q))"
  using assms
proof (induction ops arbitrary: s)
  case Nil
  then show ?case by (simp add: run_def)
next
  case (Cons x ops)
  from step_groups_populated [OF Cons.prems, of E x] obtain n1 where
    s1: "groups (step E x s) = groups s" "calls (step E x s) = calls s @ n1"
        "\<forall>q \<in> set n1. \<not> is_get ''/members/%s/groups'' q"
    by blast
  from s1(1) Cons.prems have "groups (step E x s) \<noteq> []" by simp
  from Cons.IH [OF this] obtain n2 where
    s2: "groups (run E ops (step E x s)) = groups (step E x s)"
        "calls (run E ops (step E x s)) = calls (step E x s) @ n2"
        "\<forall>q \<in> set n2. \<not> is_get ''/members/%s/groups'' q"
    by blast
  have r: "run E (x # ops) s = run E ops (step E x s)" by (simp add: run_def)
  have "calls (run E (x # ops) s) = calls s @ (n1 @ n2)" using s1(2) s2(2) by (simp add: r)
  moreover have "\<forall>q \<in> set (n1 @ n2). \<not> is_get ''/members/%s/groups'' q" using s1(3) s2(3) by auto
  moreover have "groups (run E (x # ops) s) = groups s" using s1(1) s2(1) by (simp add: r)
  ultimately show ?case by blast
qed

lemma run_mailings_populated:
  assumes "mailings s \<noteq> []"
  shows "mailings (run E ops s) = mailings s
         \<and> (\<exists>new. calls (run E ops s) = calls s @ new
                \<and> (\<forall>q \<in> set new. \<not> is_get ''/members/%s/mailings'' q))"
  using assms
proof (induction ops arbitrary: s)
  case Nil
  then show ?case by (simp add: run_def)
next
  case (Cons x ops)
  from step_mailings_populated [OF Cons.prems, of E x] obtain n1 where
    s1: "mailings (step E x s) = mailings s" "calls (step E x s) = calls s @ n1"
        "\<forall>q \<in> set n1. \<not> is_get ''/members/%s/mailings'' q"
    by blast
  from s1(1) Cons.prems have "mailings (step E x s) \<noteq> []" by simp
  from Cons.IH [OF this] obtain n2 where
    s2: "mailings (run E ops (step E x s)) = mailings (step E x s)"
        "calls (run E ops (step E x s)) = calls (step E x s) @ n2"
        "\<forall>q \<in> set n2. \<not> is_get ''/members/%s/mailings'' q"
    by blast
  have r: "run E (x # ops) s = run E ops (step E x s)" by (simp add: run_def)
  have "calls (run E (x # ops) s) = calls s @ (n1 @ n2)" using s1(2) s2(2) by (simp add: r)
  moreover have "\<forall>q \<in> set (n1 @ n2). \<not> is_get ''/members/%s/mailings'' q" using s1(3) s2(3) by auto
  moreover have "mailings (run E (x # ops) s) = mailings s" using s1(1) s2(1) by (simp add: r)
  ultimately show ?case by blast
qed

text \<open>
  C5, as stated, fails: when the first \<^verbatim>\<open>get\<close> is answered with an empty list the cache
  stays empty, and two successive \<^verbatim>\<open>fetch_all\<close> calls issue two requests.
\<close>

theorem fetch_all_twice_counterexample:
  "new_calls (member_with [(''member_id'', VInt 5)])
     (snd (groups_fetch_all (example_account [] (Inr (VList [])))
        (snd (groups_fetch_all (example_account [] (Inr (VList [])))
           (member_with [(''member_id'', VInt 5)])))))
   = [Request GET (''/members/%s/groups'', Some (VInt 5)) None,
      Request GET (''/members/%s/groups'', Some (VInt 5)) None]"
  by (simp add: groups_fetch_all_def fetch_entities_def call_def py_dict_def new_calls_def
                member_with_def example_account_def)

text \<open>
  C5, amended: for either collection of a member with a \<^verbatim>\<open>member_id\<close> and an empty cache,
  when the first \<^verbatim>\<open>fetch_all\<close> returns a mapping that is not empty, the second returns the
  same mapping and leaves the state unchanged, the two together issue exactly one \<^verbatim>\<open>get\<close>,
  and after any run of the member's operations the cache is still that mapping and no
  further \<^verbatim>\<open>get\<close> for the collection has been issued.
\<close>

theorem fetch_all_memoized:
  "(\<forall>mid d. map_of (m_dict s) ''member_id'' = Some mid \<and> groups s = []
        \<and> fst (groups_fetch_all E s) = Inr d \<and> d \<noteq> []
      \<longrightarrow> groups_fetch_all E (snd (groups_fetch_all E s)) = (Inr d, snd (groups_fetch_all E s))
        \<and> new_calls s (snd (groups_fetch_all E (snd (groups_fetch_all E s))))
            = [Request GET (''/members/%s/groups'', Some mid) None]
        \<and> (\<forall>ops. groups (run E ops (snd (groups_fetch_all E s))) = d
              \<and> (\<forall>q \<in> set (new_calls (snd (groups_fetch_all E s)) (run E ops (snd (groups_fetch_all E s)))).
                    \<not> is_get ''/members/%s/groups'' q)))
   \<and> (\<forall>mid d. map_of (m_dict s) ''member_id'' = Some mid \<and> mailings s = []
        \<and> fst (mailings_fetch_all E s) = Inr d \<and> d \<noteq> []
      \<longrightarrow> mailings_fetch_all E (snd (mailings_fetch_all E s)) = (Inr d, snd (mailings_fetch_all E s))
        \<and> new_calls s (snd (mailings_fetch_all E (snd (mailings_fetch_all E s))))
            = [Request GET (''/members/%s/mailings'', Some mid) None]
        \<and> (\<forall>ops. mailings (run E ops (snd (mailings_fetch_all E s))) = d
              \<and> (\<forall>q \<in> set (new_calls (snd (mailings_fetch_all E s)) (run E ops (snd (mailings_fetch_all E s)))).
                    \<not> is_get ''/members/%s/mailings'' q)))"
proof (intro conjI allI impI)
  fix mid d
  assume a: "map_of (m_dict s) ''member_id'' = Some mid \<and> groups s = []
        \<and> fst (groups_fetch_all E s) = Inr d \<and> d \<noteq> []"
  let ?s1 = "snd (groups_fetch_all E s)"
  note u = groups_fetch_all_unpopulated [of s mid E]
  from a have g1: "groups ?s1 = d" using u(4) by simp
  from a have m1: "map_of (m_dict ?s1) ''member_id'' \<noteq> None" using u(2) by simp
  from a g1 have ne: "groups ?s1 \<noteq> []" by simp
  show again: "groups_fetch_all E ?s1 = (Inr d, ?s1)"
    using groups_fetch_all_populated [OF m1 ne, of E] g1 by simp
  show "new_calls s (snd (groups_fetch_all E ?s1)) = [Request GET (''/members/%s/groups'', Some mid) None]"
    using a u(1) by (simp add: again new_calls_def)
  fix ops
  from run_groups_populated [OF ne, of E ops] obtain new where
    r: "groups (run E ops ?s1) = groups ?s1" "calls (run E ops ?s1) = calls ?s1 @ new"
       "\<forall>q \<in> set new. \<not> is_get ''/members/%s/groups'' q"
    by blast
  show "groups (run E ops ?s1) = d" using r(1) g1 by simp
  show "\<forall>q \<in> set (new_calls ?s1 (run E ops ?s1)). \<not> is_get ''/members/%s/groups'' q"
    using r(2,3) by (simp add: new_calls_def)
next
  fix mid d
  assume a: "map_of (m_dict s) ''member_id'' = Some mid \<and> mailings s = []
        \<and> fst (mailings_fetch_all E s) = Inr d \<and> d \<noteq> []"
  let ?s1 = "snd (mailings_fetch_all E s)"
  note u = mailings_fetch_all_unpopulated [of s mid E]
  from a have g1: "mailings ?s1 = d" using u(4) by simp
  from a have m1: "map_of (m_dict ?s1) ''member_id'' \<noteq> None" using u(2) by simp
  from a g1 have ne: "mailings ?s1 \<noteq> []" by simp
  show again: "mailings_fetch_all E ?s1 = (Inr d, ?s1)"
    using mailings_fetch_all_populated [OF m1 ne, of E] g1 by simp
  show "new_calls s (snd (mailings_fetch_all E ?s1)) = [Request GET (''/members/%s/mailings'', Some mid) None]"
    using a u(1) by (simp add: again new_calls_def)
  fix ops
  from run_mailings_populated [OF ne, of E ops] obtain new where
    r: "mailings (run E ops ?s1) = mailings ?s1" "calls (run E ops ?s1) = calls ?s1 @ new"
       "\<forall>q \<in> set new. \<not> is_get ''/members/%s/mailings'' q"
    by blast
  show "mailings (run E ops ?s1) = d" using r(1) g1 by simp
  show "\<forall>q \<in> set (new_calls ?s1 (run E ops ?s1)). \<not> is_get ''/members/%s/mailings'' q"
    using r(2,3) by (simp add: new_calls_def)
qed

theorem fetch_all_memoized_witness:
  "groups_fetch_all (example_account [] (Inr (VList [VDict [(''group_name'', VStr ''VIP''), (''group_id'', VInt 1)]])))
      (snd (groups_fetch_all (example_account [] (Inr (VList [VDict [(''group_name'', VStr ''VIP''), (''group_id'', VInt 1)]])))
              (member_with [(''member_id'', VInt 5)])))
     = (Inr [(VStr ''VIP'', VDict [(''group_name'', VStr ''VIP''), (''group_id'', VInt 1)])],
        snd (groups_fetch_all (example_account [] (Inr (VList [VDict [(''group_name'', VStr ''VIP''), (''group_id'', VInt 1)]])))
              (member_with [(''member_id'', VInt 5)])))
   \<and> new_calls (member_with [(''member_id'', VInt 5)])
       (snd (groups_fetch_all (example_account [] (Inr (VList [VDict [(''group_name'', VStr ''VIP''), (''group_id'', VInt 1)]])))
          (snd (groups_fetch_all (example_account [] (Inr (VList [VDict [(''group_name'', VStr ''VIP''), (''group_id'', VInt 1)]])))
              (member_with [(''member_id'', VInt 5)])))))
     = [Request GET (''/members/%s/groups'', Some (VInt 5)) None]
   \<and> new_calls (member_with [(''member_id'', VInt 5)])
       (snd (mailings_fetch_all (example_account [] (Inr (VList [VDict [(''mailing_id'', VInt 9)]])))
          (snd (mailings_fetch_all (example_account [] (Inr (VList [VDict [(''mailing_id'', VInt 9)]])))
              (member_with [(''member_id'', VInt 5)])))))
     = [Request GET (''/members/%s/mailings'', Some (VInt 5)) None]"
proof -
  let ?g = "VDict [(''group_name'', VStr ''VIP''), (''group_id'', VInt 1)]"
  let ?m = "VDict [(''mailing_id'', VInt 9)]"
  let ?E = "example_account [] (Inr (VList [?g]))"
  let ?F = "example_account [] (Inr (VList [?m]))"
  let ?s = "member_with [(''member_id'', VInt 5)]"
  have g: "map_of (m_dict ?s) ''member_id'' = Some (VInt 5) \<and> groups ?s = []
        \<and> fst (groups_fetch_all ?E ?s) = Inr [(VStr ''VIP'', ?g)] \<and> [(VStr ''VIP'', ?g)] \<noteq> []"
    by (simp add: groups_fetch_all_def fetch_entities_def call_def keyed_def py_dict_def
                  member_with_def example_account_def)
  have m: "map_of (m_dict ?s) ''member_id'' = Some (VInt 5) \<and> mailings ?s = []
        \<and> fst (mailings_fetch_all ?F ?s) = Inr [(VInt 9, ?m)] \<and> [(VInt 9, ?m)] \<noteq> []"
    by (simp add: mailings_fetch_all_def fetch_entities_def call_def keyed_def py_dict_def
                  member_with_def example_account_def)
  note G = fetch_all_memoized [of ?s ?E, THEN conjunct1, rule_format, OF g]
  note M = fetch_all_memoized [of ?s ?F, THEN conjunct2, rule_format, OF m]
  show ?thesis
    by (intro conjI) (rule G [THEN conjunct1], rule G [THEN conjunct2, THEN conjunct1],
                      rule M [THEN conjunct2, THEN conjunct1])
qed

section \<open>Parsing and extracting\<close>




subsection \<open>C8: parse, then extract\<close>




end
